theory Spec2Isabelle
  imports Main "HOL-Library.Word"
begin

section \<open>CLIStyle: the escape tables\<close>

text \<open>
  The library is one header, \<^verbatim>\<open>clistyle.hpp\<close>. Its private namespace holds three
  \<^verbatim>\<open>unordered_map<string, string>\<close> tables, the reset literal, the capability flag,
  the capability enabler and the 24-bit colour generator; its public namespace holds the
  entry points, each in a stream form (\<^verbatim>\<open>ostream&\<close> in, the same \<^verbatim>\<open>ostream&\<close> out) and a
  string form (\<^verbatim>\<open>const string&\<close> in, \<^verbatim>\<open>string\<close> out).

  Strings are character lists. The byte the source writes \<^verbatim>\<open>\033\<close> is \<open>ESC\<close>.
\<close>

definition ESC :: char where
  "ESC = CHR 0x1B"

text \<open>
  The tables, entry for entry in the order of the source. A table is read with
  \<^verbatim>\<open>operator[]\<close>, which yields the stored string, or the empty string for a key that
  is absent (\<open>at\<close>).
\<close>

definition styles :: "(string \<times> string) list" where
  "styles =
    [(''bold'', ESC # ''[1m''),
     (''italic'', ESC # ''[3m''),
     (''underline'', ESC # ''[4m''),
     (''reverse'', ESC # ''[7m'')]"

definition color_text :: "(string \<times> string) list" where
  "color_text =
    [(''grey'', ESC # ''[30m''),
     (''red'', ESC # ''[31m''),
     (''green'', ESC # ''[32m''),
     (''yellow'', ESC # ''[33m''),
     (''blue'', ESC # ''[34m''),
     (''magenta'', ESC # ''[35m''),
     (''cyan'', ESC # ''[36m''),
     (''white'', ESC # ''[37m''),
     (''bright grey'', ESC # ''[1;30m''),
     (''bright red'', ESC # ''[1;31m''),
     (''bright green'', ESC # ''[1;32m''),
     (''bright yellow'', ESC # ''[1;33m''),
     (''bright blue'', ESC # ''[1;34m''),
     (''bright magenta'', ESC # ''[1;35m''),
     (''bright cyan'', ESC # ''[1;36m''),
     (''bright white'', ESC # ''[1;37m'')]"

definition color_background :: "(string \<times> string) list" where
  "color_background =
    [(''grey'', ESC # ''[40m''),
     (''red'', ESC # ''[41m''),
     (''green'', ESC # ''[42m''),
     (''yellow'', ESC # ''[43m''),
     (''blue'', ESC # ''[44m''),
     (''magenta'', ESC # ''[45m''),
     (''cyan'', ESC # ''[46m''),
     (''white'', ESC # ''[47m''),
     (''bright grey'', ESC # ''[1;40m''),
     (''bright red'', ESC # ''[1;41m''),
     (''bright green'', ESC # ''[1;42m''),
     (''bright yellow'', ESC # ''[1;43m''),
     (''bright blue'', ESC # ''[1;44m''),
     (''bright magenta'', ESC # ''[1;45m''),
     (''bright cyan'', ESC # ''[1;46m''),
     (''bright white'', ESC # ''[1;47m'')]"

definition at :: "(string \<times> string) list \<Rightarrow> string \<Rightarrow> string" where
  "at table k = (case map_of table k of Some v \<Rightarrow> v | None \<Rightarrow> [])"

definition RESET_STYLE :: string where
  "RESET_STYLE = ESC # ''[0m''"

subsection \<open>The 24-bit colour generator\<close>

text \<open>
  \<^verbatim>\<open>std::to_string\<close> of a \<^verbatim>\<open>uint8_t\<close> promotes it to \<^verbatim>\<open>int\<close> and prints it in decimal.
\<close>

definition digit_char :: "nat \<Rightarrow> char" where
  "digit_char d = ''0123456789'' ! d"

fun to_string :: "nat \<Rightarrow> string" where
  "to_string n = (if n < 10 then [digit_char n] else to_string (n div 10) @ [digit_char (n mod 10)])"

declare to_string.simps [simp del]

text \<open>
  \<^verbatim>\<open>getColor<position, red, green, blue>()\<close>: the four template arguments are
  \<^verbatim>\<open>uint8_t\<close>; position 1 selects the text family, every other value the background
  family.
\<close>

definition getColor :: "8 word \<Rightarrow> 8 word \<Rightarrow> 8 word \<Rightarrow> 8 word \<Rightarrow> string" where
  "getColor position red green blue =
    (if position = 1
     then ESC # ''[38;2;'' @ to_string (unat red) @ '';'' @ to_string (unat green) @ '';''
            @ to_string (unat blue) @ ''m''
     else ESC # ''[48;2;'' @ to_string (unat red) @ '';'' @ to_string (unat green) @ '';''
            @ to_string (unat blue) @ ''m'')"

text \<open>
  \<^verbatim>\<open>colorText\<close> and \<^verbatim>\<open>colorBackground\<close> each have an overload that wraps a text and
  one without argument that gives the bare sequence (here with the suffix 0).
\<close>

definition colorText :: "8 word \<Rightarrow> 8 word \<Rightarrow> 8 word \<Rightarrow> string \<Rightarrow> string" where
  "colorText red green blue text = getColor 1 red green blue @ text @ RESET_STYLE"

definition colorText0 :: "8 word \<Rightarrow> 8 word \<Rightarrow> 8 word \<Rightarrow> string" where
  "colorText0 red green blue = getColor 1 red green blue"

definition colorBackground :: "8 word \<Rightarrow> 8 word \<Rightarrow> 8 word \<Rightarrow> string \<Rightarrow> string" where
  "colorBackground red green blue text = getColor 0 red green blue @ text @ RESET_STYLE"

definition colorBackground0 :: "8 word \<Rightarrow> 8 word \<Rightarrow> 8 word \<Rightarrow> string" where
  "colorBackground0 red green blue = getColor 0 red green blue"

definition TEXT :: "8 word" where
  "TEXT = 1"

definition BACKGROUND :: "8 word" where
  "BACKGROUND = 0"

section \<open>Process state, capability gate and position check\<close>

text \<open>
  A stream is named by its address. Of a stream the model keeps what has been inserted
  into it (\<open>content\<close>) and the parts of its state that a formatted insertion reads:
  whether it is in good state (\<^verbatim>\<open>good()\<close>), its pending field width (\<^verbatim>\<open>width()\<close>, a
  signed \<^verbatim>\<open>streamsize\<close>), its fill character (\<^verbatim>\<open>fill()\<close>) and whether its adjustment
  is \<^verbatim>\<open>left\<close>. A newly constructed stream is \<open>fresh_stream\<close>.

  \<^verbatim>\<open>os << s\<close>, for a \<^verbatim>\<open>std::string\<close> or a \<^verbatim>\<open>const char*\<close>, is a formatted insertion
  (\<open>insert_formatted\<close>). On a stream that is not in good state it inserts nothing. On a
  stream in good state it inserts \<open>s\<close>, padded with the fill character up to the
  pending width when that is larger than the length of \<open>s\<close> (after \<open>s\<close> under left
  adjustment, before it otherwise), and sets the width back to 0. The stream buffer is
  taken to accept every character handed to it.
\<close>

type_synonym ostream = nat

record stream_state =
  content :: string
  good :: bool
  width :: int
  fill :: char
  adjust_left :: bool

definition fresh_stream :: stream_state where
  "fresh_stream =
     \<lparr>content = [], good = True, width = 0, fill = CHR '' '', adjust_left = False\<rparr>"

definition padding :: "string \<Rightarrow> stream_state \<Rightarrow> string" where
  "padding s st = replicate (nat (width st - int (length s))) (fill st)"

definition insert_formatted :: "string \<Rightarrow> stream_state \<Rightarrow> stream_state" where
  "insert_formatted s st =
     (if \<not> good st then st
      else st\<lparr>content := content st
                   @ (if adjust_left st then s @ padding s st else padding s st @ s),
              width := 0\<rparr>)"

text \<open>
  The only process-wide state of the library is the flag \<^verbatim>\<open>handleVTSequences\<close>,
  initialised to \<^verbatim>\<open>false\<close>. The world holds the flag, the state of every stream, and
  \<open>enabler_calls\<close>, the number of times \<^verbatim>\<open>enableVTSequences\<close> has run to its end: the
  count a mock enabler would keep. When the process starts every stream is fresh.
  \<open>stream_insert os s\<close> is the statement \<^verbatim>\<open>os << s\<close>.
\<close>

record world =
  handleVTSequences :: bool
  enabler_calls :: nat
  streams :: "ostream \<Rightarrow> stream_state"

definition initial_world :: world where
  "initial_world =
     \<lparr>handleVTSequences = False, enabler_calls = 0, streams = (\<lambda>_. fresh_stream)\<rparr>"

definition stream_insert :: "ostream \<Rightarrow> string \<Rightarrow> world \<Rightarrow> world" where
  "stream_insert os s w = w\<lparr>streams := (streams w)(os := insert_formatted s (streams w os))\<rparr>"

text \<open>
  Every \<^verbatim>\<open>exit(EXIT_FAILURE)\<close> of the source is an error value, named after the
  diagnostic printed before it.
\<close>

datatype error = NoConsoleHandle | NoVTMode | BadPosition

text \<open>
  The enabler has two bodies, chosen by \<^verbatim>\<open>#ifdef _WIN32\<close>. On Windows it asks the
  console for its handle, reads its mode and sets the mode with virtual terminal
  processing added; each of the three calls can fail, and their outcomes are the three
  arguments of \<open>Win32\<close> (\<^verbatim>\<open>GetStdHandle\<close> gave a valid handle, \<^verbatim>\<open>GetConsoleMode\<close>
  succeeded, \<^verbatim>\<open>SetConsoleMode\<close> succeeded). Elsewhere it only sets the flag.
\<close>

datatype platform = Other | Win32 bool bool bool

fun enableVTSequences :: "platform \<Rightarrow> world \<Rightarrow> error + world" where
  "enableVTSequences (Win32 handle_valid got_mode set_mode) w =
     (if \<not> handle_valid then Inl NoConsoleHandle
      else if \<not> got_mode then Inl NoVTMode
      else if \<not> set_mode then Inl NoVTMode
      else Inr (w\<lparr>handleVTSequences := True, enabler_calls := Suc (enabler_calls w)\<rparr>))"
| "enableVTSequences Other w =
     Inr (w\<lparr>handleVTSequences := True, enabler_calls := Suc (enabler_calls w)\<rparr>)"

text \<open>
  The line that opens the gated entry points:
  \<^verbatim>\<open>if (!handleVTSequences) enableVTSequences(handleVTSequences);\<close>
\<close>

definition gate :: "platform \<Rightarrow> world \<Rightarrow> error + world" where
  "gate p w = (if \<not> handleVTSequences w then enableVTSequences p w else Inr w)"

definition checkPosition :: "8 word \<Rightarrow> error + unit" where
  "checkPosition position =
     (if position \<noteq> 1 \<and> position \<noteq> 0 then Inl BadPosition else Inr ())"

section \<open>The entry points\<close>

subsection \<open>Custom colours\<close>

text \<open>
  Six overloads: \<^verbatim>\<open>color<position, r, g, b>\<close> and \<^verbatim>\<open>color<r, g, b>\<close> on a stream and
  on a string, \<^verbatim>\<open>on_color<r, g, b>\<close> on a stream and on a string.
\<close>

definition color_pos_stream ::
  "platform \<Rightarrow> 8 word \<Rightarrow> 8 word \<Rightarrow> 8 word \<Rightarrow> 8 word \<Rightarrow> ostream \<Rightarrow> world \<Rightarrow> error + ostream \<times> world" where
  "color_pos_stream p position red green blue os w =
     (case checkPosition position of Inl e \<Rightarrow> Inl e | Inr _ \<Rightarrow>
      case gate p w of Inl e \<Rightarrow> Inl e | Inr w1 \<Rightarrow>
        Inr (os, stream_insert os (getColor position red green blue) w1))"

definition color_pos_string ::
  "platform \<Rightarrow> 8 word \<Rightarrow> 8 word \<Rightarrow> 8 word \<Rightarrow> 8 word \<Rightarrow> string \<Rightarrow> world \<Rightarrow> error + string \<times> world" where
  "color_pos_string p position red green blue text w =
     (case checkPosition position of Inl e \<Rightarrow> Inl e | Inr _ \<Rightarrow>
      case gate p w of Inl e \<Rightarrow> Inl e | Inr w1 \<Rightarrow>
        Inr (if position = TEXT then colorText red green blue text
             else colorBackground red green blue text, w1))"

definition color_string ::
  "platform \<Rightarrow> 8 word \<Rightarrow> 8 word \<Rightarrow> 8 word \<Rightarrow> string \<Rightarrow> world \<Rightarrow> error + string \<times> world" where
  "color_string p red green blue text w =
     (case gate p w of Inl e \<Rightarrow> Inl e | Inr w1 \<Rightarrow> Inr (colorText red green blue text, w1))"

definition color_stream ::
  "platform \<Rightarrow> 8 word \<Rightarrow> 8 word \<Rightarrow> 8 word \<Rightarrow> ostream \<Rightarrow> world \<Rightarrow> error + ostream \<times> world" where
  "color_stream p red green blue os w =
     (case gate p w of Inl e \<Rightarrow> Inl e | Inr w1 \<Rightarrow>
        Inr (os, stream_insert os (colorBackground0 red green blue) w1))"

definition on_color_string ::
  "platform \<Rightarrow> 8 word \<Rightarrow> 8 word \<Rightarrow> 8 word \<Rightarrow> string \<Rightarrow> world \<Rightarrow> error + string \<times> world" where
  "on_color_string p red green blue text w =
     (case gate p w of Inl e \<Rightarrow> Inl e | Inr w1 \<Rightarrow> Inr (colorText red green blue text, w1))"

definition on_color_stream ::
  "platform \<Rightarrow> 8 word \<Rightarrow> 8 word \<Rightarrow> 8 word \<Rightarrow> ostream \<Rightarrow> world \<Rightarrow> error + ostream \<times> world" where
  "on_color_stream p red green blue os w =
     (case gate p w of Inl e \<Rightarrow> Inl e | Inr w1 \<Rightarrow>
        Inr (os, stream_insert os (colorBackground0 red green blue) w1))"

subsection \<open>Named colours\<close>

text \<open>
  Sixteen colours, eight hues each plain and bright, with six functions apiece:
  for red, \<^verbatim>\<open>red<position>(os)\<close>, \<^verbatim>\<open>red<position>(text)\<close>, \<^verbatim>\<open>red(text)\<close>, \<^verbatim>\<open>red(os)\<close>,
  \<^verbatim>\<open>on_red(text)\<close> and \<^verbatim>\<open>on_red(os)\<close>. The ninety-six bodies are one pattern and differ
  in two places only. The first is the key they look up, the function's name with a
  space for the underscore (\<open>key\<close>). The second is the gate line: the six functions of
  grey begin with it, before the position check; no function of the other fifteen
  colours has it (\<open>has_gate\<close>).
\<close>

datatype hue = Grey | Red | Green | Yellow | Blue | Magenta | Cyan | White

datatype colour = Plain hue | Bright hue

fun hue_key :: "hue \<Rightarrow> string" where
  "hue_key Grey = ''grey''"
| "hue_key Red = ''red''"
| "hue_key Green = ''green''"
| "hue_key Yellow = ''yellow''"
| "hue_key Blue = ''blue''"
| "hue_key Magenta = ''magenta''"
| "hue_key Cyan = ''cyan''"
| "hue_key White = ''white''"

fun key :: "colour \<Rightarrow> string" where
  "key (Plain h) = hue_key h"
| "key (Bright h) = ''bright '' @ hue_key h"

fun has_gate :: "colour \<Rightarrow> bool" where
  "has_gate (Plain Grey) = True"
| "has_gate _ = False"

text \<open>
  \<open>named_gate\<close> is the first line of a named-colour function: the gate line for
  grey, nothing for the other colours.
\<close>

definition named_gate :: "platform \<Rightarrow> colour \<Rightarrow> world \<Rightarrow> error + world" where
  "named_gate p c w = (if has_gate c then gate p w else Inr w)"

definition named_pos_stream ::
  "platform \<Rightarrow> colour \<Rightarrow> 8 word \<Rightarrow> ostream \<Rightarrow> world \<Rightarrow> error + ostream \<times> world" where
  "named_pos_stream p c position os w =
     (case named_gate p c w of Inl e \<Rightarrow> Inl e | Inr w1 \<Rightarrow>
      case checkPosition position of Inl e \<Rightarrow> Inl e | Inr _ \<Rightarrow>
        Inr (os, stream_insert os (if position = TEXT then at color_text (key c)
                         else at color_background (key c)) w1))"

definition named_pos_string ::
  "platform \<Rightarrow> colour \<Rightarrow> 8 word \<Rightarrow> string \<Rightarrow> world \<Rightarrow> error + string \<times> world" where
  "named_pos_string p c position text w =
     (case named_gate p c w of Inl e \<Rightarrow> Inl e | Inr w1 \<Rightarrow>
      case checkPosition position of Inl e \<Rightarrow> Inl e | Inr _ \<Rightarrow>
        Inr ((if position = TEXT then at color_text (key c)
              else at color_background (key c)) @ text @ RESET_STYLE, w1))"

definition named_string ::
  "platform \<Rightarrow> colour \<Rightarrow> string \<Rightarrow> world \<Rightarrow> error + string \<times> world" where
  "named_string p c text w =
     (case named_gate p c w of Inl e \<Rightarrow> Inl e | Inr w1 \<Rightarrow>
        Inr (at color_text (key c) @ text @ RESET_STYLE, w1))"

definition named_stream ::
  "platform \<Rightarrow> colour \<Rightarrow> ostream \<Rightarrow> world \<Rightarrow> error + ostream \<times> world" where
  "named_stream p c os w =
     (case named_gate p c w of Inl e \<Rightarrow> Inl e | Inr w1 \<Rightarrow>
        Inr (os, stream_insert os (at color_text (key c)) w1))"

definition on_named_string ::
  "platform \<Rightarrow> colour \<Rightarrow> string \<Rightarrow> world \<Rightarrow> error + string \<times> world" where
  "on_named_string p c text w =
     (case named_gate p c w of Inl e \<Rightarrow> Inl e | Inr w1 \<Rightarrow>
        Inr (at color_background (key c) @ text @ RESET_STYLE, w1))"

definition on_named_stream ::
  "platform \<Rightarrow> colour \<Rightarrow> ostream \<Rightarrow> world \<Rightarrow> error + ostream \<times> world" where
  "on_named_stream p c os w =
     (case named_gate p c w of Inl e \<Rightarrow> Inl e | Inr w1 \<Rightarrow>
        Inr (os, stream_insert os (at color_background (key c)) w1))"

subsection \<open>Styles and reset\<close>

text \<open>
  \<^verbatim>\<open>bold\<close>, \<^verbatim>\<open>italic\<close>, \<^verbatim>\<open>underline\<close> and \<^verbatim>\<open>reverse\<close> do not read the table
  \<open>styles\<close>: each body carries its own literal (\<open>style_literal\<close>).
\<close>

datatype style = Bold | Italic | Underline | Reverse

fun style_literal :: "style \<Rightarrow> string" where
  "style_literal Bold = ESC # ''[1m''"
| "style_literal Italic = ESC # ''[3m''"
| "style_literal Underline = ESC # ''[4m''"
| "style_literal Reverse = ESC # ''[7m''"

fun style_key :: "style \<Rightarrow> string" where
  "style_key Bold = ''bold''"
| "style_key Italic = ''italic''"
| "style_key Underline = ''underline''"
| "style_key Reverse = ''reverse''"

definition style_stream ::
  "platform \<Rightarrow> style \<Rightarrow> ostream \<Rightarrow> world \<Rightarrow> error + ostream \<times> world" where
  "style_stream p st os w =
     (case gate p w of Inl e \<Rightarrow> Inl e | Inr w1 \<Rightarrow> Inr (os, stream_insert os (style_literal st) w1))"

definition style_string ::
  "platform \<Rightarrow> style \<Rightarrow> string \<Rightarrow> world \<Rightarrow> error + string \<times> world" where
  "style_string p st text w =
     (case gate p w of Inl e \<Rightarrow> Inl e | Inr w1 \<Rightarrow>
        Inr (style_literal st @ text @ RESET_STYLE, w1))"

definition reset_stream :: "platform \<Rightarrow> ostream \<Rightarrow> world \<Rightarrow> error + ostream \<times> world" where
  "reset_stream p os w =
     (case gate p w of Inl e \<Rightarrow> Inl e | Inr w1 \<Rightarrow> Inr (os, stream_insert os RESET_STYLE w1))"

definition reset_string :: "platform \<Rightarrow> string \<Rightarrow> world \<Rightarrow> error + string \<times> world" where
  "reset_string p text w =
     (case gate p w of Inl e \<Rightarrow> Inl e | Inr w1 \<Rightarrow> Inr (text @ RESET_STYLE, w1))"

section \<open>Programs of calls\<close>

text \<open>
  A call names one entry point with its arguments; \<open>invoke\<close> runs it and gives what
  it returns, a stream or a string. A program is a list of calls; \<open>run\<close> gives the
  world after each call that returned, and stops where the process exits.
\<close>

datatype call =
    Color_pos_stream "8 word" "8 word" "8 word" "8 word" ostream
  | Color_pos_string "8 word" "8 word" "8 word" "8 word" string
  | Color_string "8 word" "8 word" "8 word" string
  | Color_stream "8 word" "8 word" "8 word" ostream
  | On_color_string "8 word" "8 word" "8 word" string
  | On_color_stream "8 word" "8 word" "8 word" ostream
  | Named_pos_stream colour "8 word" ostream
  | Named_pos_string colour "8 word" string
  | Named_string colour string
  | Named_stream colour ostream
  | On_named_string colour string
  | On_named_stream colour ostream
  | Style_stream style ostream
  | Style_string style string
  | Reset_stream ostream
  | Reset_string string

datatype returned = Stream ostream | Text string

definition stream_result :: "error + ostream \<times> world \<Rightarrow> error + returned \<times> world" where
  "stream_result r = (case r of Inl e \<Rightarrow> Inl e | Inr (os, w) \<Rightarrow> Inr (Stream os, w))"

definition string_result :: "error + string \<times> world \<Rightarrow> error + returned \<times> world" where
  "string_result r = (case r of Inl e \<Rightarrow> Inl e | Inr (s, w) \<Rightarrow> Inr (Text s, w))"

fun invoke :: "platform \<Rightarrow> call \<Rightarrow> world \<Rightarrow> error + returned \<times> world" where
  "invoke p (Color_pos_stream position r g b os) w = stream_result (color_pos_stream p position r g b os w)"
| "invoke p (Color_pos_string position r g b text) w = string_result (color_pos_string p position r g b text w)"
| "invoke p (Color_string r g b text) w = string_result (color_string p r g b text w)"
| "invoke p (Color_stream r g b os) w = stream_result (color_stream p r g b os w)"
| "invoke p (On_color_string r g b text) w = string_result (on_color_string p r g b text w)"
| "invoke p (On_color_stream r g b os) w = stream_result (on_color_stream p r g b os w)"
| "invoke p (Named_pos_stream c position os) w = stream_result (named_pos_stream p c position os w)"
| "invoke p (Named_pos_string c position text) w = string_result (named_pos_string p c position text w)"
| "invoke p (Named_string c text) w = string_result (named_string p c text w)"
| "invoke p (Named_stream c os) w = stream_result (named_stream p c os w)"
| "invoke p (On_named_string c text) w = string_result (on_named_string p c text w)"
| "invoke p (On_named_stream c os) w = stream_result (on_named_stream p c os w)"
| "invoke p (Style_stream st os) w = stream_result (style_stream p st os w)"
| "invoke p (Style_string st text) w = string_result (style_string p st text w)"
| "invoke p (Reset_stream os) w = stream_result (reset_stream p os w)"
| "invoke p (Reset_string text) w = string_result (reset_string p text w)"

fun run :: "platform \<Rightarrow> call list \<Rightarrow> world \<Rightarrow> world list" where
  "run p [] w = []"
| "run p (c # cs) w =
     (case invoke p c w of Inl e \<Rightarrow> [] | Inr (r, w') \<Rightarrow> w' # run p cs w')"

section \<open>The vocabulary of the specification\<close>

text \<open>
  The specification speaks of a target, of a request (a named colour on a target, a
  style, or a custom colour on a target) and of the escape sequence of a request, which
  its section on the wire format gives byte for byte. \<open>spec_sequence\<close> is that
  sequence, written from the specification alone: it reads neither the tables nor the
  generator of the source. \<open>spec_decimal\<close> is the decimal form of a number below 1000,
  without leading zeros; \<open>style_code\<close> is the number the specification gives a style.
\<close>

datatype target = Foreground | Background

fun position_of :: "target \<Rightarrow> 8 word" where
  "position_of Foreground = TEXT"
| "position_of Background = BACKGROUND"

datatype request = Named colour target | Styled style | Custom target "8 word" "8 word" "8 word"

text \<open>The place of a hue in the order grey, red, green, yellow, blue, magenta, cyan, white.\<close>

fun hue_index :: "hue \<Rightarrow> nat" where
  "hue_index Grey = 0"
| "hue_index Red = 1"
| "hue_index Green = 2"
| "hue_index Yellow = 3"
| "hue_index Blue = 4"
| "hue_index Magenta = 5"
| "hue_index Cyan = 6"
| "hue_index White = 7"

fun style_code :: "style \<Rightarrow> nat" where
  "style_code Bold = 1"
| "style_code Italic = 3"
| "style_code Underline = 4"
| "style_code Reverse = 7"

definition spec_digit :: "nat \<Rightarrow> char" where
  "spec_digit d =
     (if d = 0 then CHR ''0'' else if d = 1 then CHR ''1'' else if d = 2 then CHR ''2''
      else if d = 3 then CHR ''3'' else if d = 4 then CHR ''4'' else if d = 5 then CHR ''5''
      else if d = 6 then CHR ''6'' else if d = 7 then CHR ''7'' else if d = 8 then CHR ''8''
      else CHR ''9'')"

definition spec_decimal :: "nat \<Rightarrow> string" where
  "spec_decimal n =
     (if n < 10 then [spec_digit n]
      else if n < 100 then [spec_digit (n div 10), spec_digit (n mod 10)]
      else [spec_digit (n div 100), spec_digit (n div 10 mod 10), spec_digit (n mod 10)])"

fun spec_sequence :: "request \<Rightarrow> string" where
  "spec_sequence (Named (Plain h) Foreground) =
     CHR 0x1B # ''[3'' @ spec_decimal (hue_index h) @ ''m''"
| "spec_sequence (Named (Bright h) Foreground) =
     CHR 0x1B # ''[1;3'' @ spec_decimal (hue_index h) @ ''m''"
| "spec_sequence (Named (Plain h) Background) =
     CHR 0x1B # ''[4'' @ spec_decimal (hue_index h) @ ''m''"
| "spec_sequence (Named (Bright h) Background) =
     CHR 0x1B # ''[1;4'' @ spec_decimal (hue_index h) @ ''m''"
| "spec_sequence (Styled st) = CHR 0x1B # ''['' @ spec_decimal (style_code st) @ ''m''"
| "spec_sequence (Custom Foreground r g b) =
     CHR 0x1B # ''[38;2;'' @ spec_decimal (unat r) @ '';'' @ spec_decimal (unat g) @ '';''
       @ spec_decimal (unat b) @ ''m''"
| "spec_sequence (Custom Background r g b) =
     CHR 0x1B # ''[48;2;'' @ spec_decimal (unat r) @ '';'' @ spec_decimal (unat g) @ '';''
       @ spec_decimal (unat b) @ ''m''"

text \<open>
  \<open>wraps\<close> lists string forms that carry a request and \<open>applies\<close> stream forms that
  carry it: the function with the position argument and the function whose name fixes
  the target. Two functions are in neither list, \<^verbatim>\<open>on_color<r, g, b>(text)\<close> and
  \<^verbatim>\<open>color<r, g, b>(os)\<close>; what they do is stated on its own.
\<close>

fun wraps :: "request \<Rightarrow> string \<Rightarrow> call list" where
  "wraps (Named c Foreground) text = [Named_pos_string c TEXT text, Named_string c text]"
| "wraps (Named c Background) text = [Named_pos_string c BACKGROUND text, On_named_string c text]"
| "wraps (Styled st) text = [Style_string st text]"
| "wraps (Custom Foreground r g b) text =
     [Color_pos_string TEXT r g b text, Color_string r g b text]"
| "wraps (Custom Background r g b) text = [Color_pos_string BACKGROUND r g b text]"

fun applies :: "request \<Rightarrow> ostream \<Rightarrow> call list" where
  "applies (Named c Foreground) os = [Named_pos_stream c TEXT os, Named_stream c os]"
| "applies (Named c Background) os = [Named_pos_stream c BACKGROUND os, On_named_stream c os]"
| "applies (Styled st) os = [Style_stream st os]"
| "applies (Custom Foreground r g b) os = [Color_pos_stream TEXT r g b os]"
| "applies (Custom Background r g b) os =
     [Color_pos_stream BACKGROUND r g b os, On_color_stream r g b os]"

text \<open>
  \<open>wrapped\<close> gives the text argument of a call that is a string form of a colour or of
  a style, whichever function it is. \<open>valid_position\<close> holds of a call unless it
  passes a position other than TEXT and BACKGROUND.
\<close>

fun wrapped :: "call \<Rightarrow> string option" where
  "wrapped (Color_pos_string position r g b text) = Some text"
| "wrapped (Color_string r g b text) = Some text"
| "wrapped (On_color_string r g b text) = Some text"
| "wrapped (Named_pos_string c position text) = Some text"
| "wrapped (Named_string c text) = Some text"
| "wrapped (On_named_string c text) = Some text"
| "wrapped (Style_string st text) = Some text"
| "wrapped _ = None"

fun valid_position :: "call \<Rightarrow> bool" where
  "valid_position (Color_pos_stream position r g b os) = (position = TEXT \<or> position = BACKGROUND)"
| "valid_position (Color_pos_string position r g b text) = (position = TEXT \<or> position = BACKGROUND)"
| "valid_position (Named_pos_stream c position os) = (position = TEXT \<or> position = BACKGROUND)"
| "valid_position (Named_pos_string c position text) = (position = TEXT \<or> position = BACKGROUND)"
| "valid_position _ = True"

text \<open>
  The gate lets a call through when the flag is already set or the enabler succeeds.
\<close>

fun enabler_succeeds :: "platform \<Rightarrow> bool" where
  "enabler_succeeds Other = True"
| "enabler_succeeds (Win32 handle_valid got_mode set_mode) = (handle_valid \<and> got_mode \<and> set_mode)"

definition gate_passes :: "platform \<Rightarrow> world \<Rightarrow> bool" where
  "gate_passes p w = (handleVTSequences w \<or> enabler_succeeds p)"

text \<open>
  A string is the decimal form of a number when it is a non-empty run of digits that
  reads as the number and starts with a zero only if it is the single digit zero.
\<close>

definition digit_value :: "char \<Rightarrow> nat" where
  "digit_value c = of_char c - 48"

definition decimal_value :: "string \<Rightarrow> nat" where
  "decimal_value s = foldl (\<lambda>a c. 10 * a + digit_value c) 0 s"

definition is_decimal :: "string \<Rightarrow> nat \<Rightarrow> bool" where
  "is_decimal s n =
     (s \<noteq> [] \<and> list_all (\<lambda>c. c \<in> set ''0123456789'') s \<and> decimal_value s = n
      \<and> (s = ''0'' \<or> hd s \<in> set ''123456789''))"

text \<open>
  Stripping: an escape sequence of the form ESC [ ... m is the byte ESC, an opening
  bracket, a run of parameter bytes (digits and semicolons, possibly none) and the
  letter m. \<open>sgr_rest\<close> reads what follows the bracket and, when it is such a run closed
  by m, gives what follows the m. \<open>strip_sgr\<close> removes every such sequence, left to
  right, and keeps every other byte.
\<close>

definition is_param :: "char \<Rightarrow> bool" where
  "is_param c = (c \<in> set ''0123456789;'')"

fun sgr_rest :: "string \<Rightarrow> string option" where
  "sgr_rest [] = None"
| "sgr_rest (c # cs) =
     (if c = CHR ''m'' then Some cs else if is_param c then sgr_rest cs else None)"

function strip_sgr :: "string \<Rightarrow> string" where
  "strip_sgr [] = []"
| "strip_sgr [c] = [c]"
| "strip_sgr (c # d # cs) =
     (if c = ESC \<and> d = CHR ''[''
      then (case sgr_rest cs of Some rest \<Rightarrow> strip_sgr rest | None \<Rightarrow> c # strip_sgr (d # cs))
      else c # strip_sgr (d # cs))"
  by pat_completeness auto
termination
proof (relation "measure length")
  have shorter: "length rest < length cs" if "sgr_rest cs = Some rest" for cs rest
    using that by (induction cs) (auto split: if_splits)
  show "wf (measure length)" by simp
  show "(rest, c # d # cs) \<in> measure length"
    if "c = ESC \<and> d = CHR ''[''" and "sgr_rest cs = Some rest" for c d cs rest
    using shorter [OF that(2)] by simp
  show "(d # cs, c # d # cs) \<in> measure length" for c d cs
    by simp
  show "(d # cs, c # d # cs) \<in> measure length" for c d cs
    by simp
qed

text \<open>
  A string holds a sequence when, somewhere in it, an ESC and an opening bracket are
  followed by a run of parameter bytes closed by m.
\<close>

fun has_sgr :: "string \<Rightarrow> bool" where
  "has_sgr [] = False"
| "has_sgr [c] = False"
| "has_sgr (c # d # cs) =
     ((c = ESC \<and> d = CHR ''['' \<and> (case sgr_rest cs of Some rest \<Rightarrow> True | None \<Rightarrow> False))
      \<or> has_sgr (d # cs))"

section \<open>Lemmas on the gate, the position check and the streams\<close>

lemma gate_passes_gate:
  "gate_passes p w \<Longrightarrow> \<exists>w1. gate p w = Inr w1 \<and> streams w1 = streams w"
  by (cases p) (auto simp: gate_passes_def gate_def)

lemma gate_Inr: "gate p w = Inr w1 \<Longrightarrow> streams w1 = streams w"
  by (cases p) (auto simp: gate_def split: if_splits)

lemma gate_flag: "gate p w = Inr w1 \<Longrightarrow> handleVTSequences w1"
  by (cases p) (auto simp: gate_def split: if_splits)

lemma named_gate_passes:
  "gate_passes p w \<Longrightarrow> \<exists>w1. named_gate p c w = Inr w1 \<and> streams w1 = streams w"
  using gate_passes_gate [of p w] by (auto simp: named_gate_def)

lemma named_gate_Inr: "named_gate p c w = Inr w1 \<Longrightarrow> streams w1 = streams w"
  by (auto simp: named_gate_def dest: gate_Inr split: if_splits)

lemma named_gate_flag:
  "named_gate p c w = Inr w1 \<Longrightarrow> handleVTSequences w \<Longrightarrow> handleVTSequences w1"
  by (auto simp: named_gate_def dest: gate_flag split: if_splits)

lemma checkPosition_valid [simp]:
  "checkPosition TEXT = Inr ()" "checkPosition BACKGROUND = Inr ()"
  by (simp_all add: checkPosition_def TEXT_def BACKGROUND_def)

lemma position_distinct [simp]: "BACKGROUND \<noteq> TEXT"
  by (simp add: TEXT_def BACKGROUND_def)

lemma style_table: "at styles (style_key st) = style_literal st"
  by (cases st) (simp_all add: at_def styles_def)

lemma streams_insert [simp]:
  "streams (stream_insert os s w) = (streams w)(os := insert_formatted s (streams w os))"
  by (simp add: stream_insert_def)

lemma flag_insert [simp]: "handleVTSequences (stream_insert os s w) = handleVTSequences w"
  by (simp add: stream_insert_def)

lemma insert_plain:
  "good st \<Longrightarrow> width st \<le> int (length s) \<Longrightarrow>
   insert_formatted s st = st\<lparr>content := content st @ s, width := 0\<rparr>"
  by (simp add: insert_formatted_def padding_def)

lemma insert_failed: "\<not> good st \<Longrightarrow> insert_formatted s st = st"
  by (simp add: insert_formatted_def)

section \<open>Decimal rendering\<close>

lemma digit_cases: "d < 10 \<Longrightarrow> d \<in> {0, 1, 2, 3, 4, 5, 6, 7, 8, 9::nat}"
  by auto

lemma digit_char_digit: "d < 10 \<Longrightarrow> digit_char d \<in> set ''0123456789''"
  by (drule digit_cases) (auto simp: digit_char_def)

lemma digit_value_digit_char: "d < 10 \<Longrightarrow> digit_value (digit_char d) = d"
  by (drule digit_cases) (auto simp: digit_char_def digit_value_def)

lemma digit_char_nonzero: "0 < d \<Longrightarrow> d < 10 \<Longrightarrow> digit_char d \<in> set ''123456789''"
  by (drule digit_cases) (auto simp: digit_char_def)

lemma to_string_digits: "list_all (\<lambda>c. c \<in> set ''0123456789'') (to_string n)"
proof (induction n rule: to_string.induct)
  case (1 n)
  show ?case
  proof (cases "n < 10")
    case True
    then show ?thesis
      using digit_char_digit [of n] by (subst to_string.simps) simp
  next
    case False
    then show ?thesis
      using 1 digit_char_digit [of "n mod 10"] by (subst to_string.simps) simp
  qed
qed

lemma to_string_nonempty: "to_string n \<noteq> []"
  by (subst to_string.simps) simp

lemma decimal_value_snoc: "decimal_value (s @ [c]) = 10 * decimal_value s + digit_value c"
  by (simp add: decimal_value_def)

lemma to_string_value: "decimal_value (to_string n) = n"
proof (induction n rule: to_string.induct)
  case (1 n)
  show ?case
  proof (cases "n < 10")
    case True
    then show ?thesis
      by (subst to_string.simps) (simp add: decimal_value_def digit_value_digit_char)
  next
    case False
    then have "decimal_value (to_string n) = 10 * (n div 10) + n mod 10"
      using 1 by (subst to_string.simps) (simp add: decimal_value_snoc digit_value_digit_char)
    then show ?thesis by simp
  qed
qed

lemma to_string_head: "0 < n \<Longrightarrow> hd (to_string n) \<in> set ''123456789''"
proof (induction n rule: to_string.induct)
  case (1 n)
  show ?case
  proof (cases "n < 10")
    case True
    then show ?thesis
      using digit_char_nonzero [of n] "1.prems" by (subst to_string.simps) simp
  next
    case False
    then have "0 < n div 10" by simp
    with False 1 have "hd (to_string (n div 10)) \<in> set ''123456789''" by simp
    with False show ?thesis
      by (subst to_string.simps) (simp add: to_string_nonempty)
  qed
qed

lemma to_string_zero: "to_string 0 = ''0''"
  by (simp add: to_string.simps digit_char_def)

lemma to_string_decimal: "is_decimal (to_string n) n"
proof (cases "n = 0")
  case True
  then show ?thesis
    by (simp add: is_decimal_def to_string_zero decimal_value_def digit_value_def)
next
  case False
  then have "hd (to_string n) \<in> set ''123456789''"
    using to_string_head [of n] by simp
  then show ?thesis
    unfolding is_decimal_def
    using to_string_digits [of n] to_string_value [of n] to_string_nonempty [of n] by blast
qed

section \<open>The source against the wire format\<close>

lemma spec_digit_char: "d < 10 \<Longrightarrow> digit_char d = spec_digit d"
  by (drule digit_cases) (auto simp: digit_char_def spec_digit_def)

lemma to_string_spec_decimal: "n < 1000 \<Longrightarrow> to_string n = spec_decimal n"
proof -
  assume n: "n < 1000"
  have one: "to_string m = [spec_digit m]" if "m < 10" for m
    using that by (subst to_string.simps) (simp add: spec_digit_char)
  have two: "to_string m = [spec_digit (m div 10), spec_digit (m mod 10)]"
    if "10 \<le> m" "m < 100" for m
  proof -
    from that have "m div 10 < 10" by simp
    with that show ?thesis
      by (subst to_string.simps) (simp add: one spec_digit_char)
  qed
  show ?thesis
  proof (cases "n < 10")
    case True
    then show ?thesis by (simp add: one spec_decimal_def)
  next
    case False
    note ge10 = this
    show ?thesis
    proof (cases "n < 100")
      case True
      with ge10 show ?thesis by (simp add: two spec_decimal_def)
    next
      case False
      with n have "10 \<le> n div 10" "n div 10 < 100" by simp_all
      moreover have "n div 10 div 10 = n div 100" by arith
      ultimately have "to_string (n div 10)
          = [spec_digit (n div 100), spec_digit (n div 10 mod 10)]"
        using two [of "n div 10"] by simp
      with False ge10 show ?thesis
        by (subst to_string.simps) (simp add: spec_decimal_def spec_digit_char)
    qed
  qed
qed

lemma to_string_component: "to_string (unat (r :: 8 word)) = spec_decimal (unat r)"
proof -
  have "unat r < 2 ^ 8"
    using unsigned_less [of r, where ?'a = nat] by simp
  then show ?thesis by (simp add: to_string_spec_decimal)
qed

lemma getColor_spec: "getColor (position_of t) r g b = spec_sequence (Custom t r g b)"
  by (cases t) (simp_all add: getColor_def TEXT_def BACKGROUND_def ESC_def to_string_component)

lemma getColor_text_spec: "getColor 1 r g b = spec_sequence (Custom Foreground r g b)"
  using getColor_spec [of Foreground r g b] by (simp add: TEXT_def)

lemma getColor_background_spec: "getColor 0 r g b = spec_sequence (Custom Background r g b)"
  using getColor_spec [of Background r g b] by (simp add: BACKGROUND_def)

lemma color_text_spec: "at color_text (key c) = spec_sequence (Named c Foreground)"
proof (cases c)
  case (Plain h)
  then show ?thesis
    by (cases h) (simp_all add: at_def color_text_def ESC_def spec_decimal_def spec_digit_def)
next
  case (Bright h)
  then show ?thesis
    by (cases h) (simp_all add: at_def color_text_def ESC_def spec_decimal_def spec_digit_def)
qed

lemma color_background_spec: "at color_background (key c) = spec_sequence (Named c Background)"
proof (cases c)
  case (Plain h)
  then show ?thesis
    by (cases h)
       (simp_all add: at_def color_background_def ESC_def spec_decimal_def spec_digit_def)
next
  case (Bright h)
  then show ?thesis
    by (cases h)
       (simp_all add: at_def color_background_def ESC_def spec_decimal_def spec_digit_def)
qed

lemma style_literal_spec: "style_literal st = spec_sequence (Styled st)"
  by (cases st) (simp_all add: ESC_def spec_decimal_def spec_digit_def)

lemma reset_literal: "RESET_STYLE = CHR 0x1B # ''[0m''"
  by (simp add: RESET_STYLE_def ESC_def)

section \<open>What the forms of a request return\<close>

lemma wraps_returns:
  assumes "c \<in> set (wraps rq text)" and "gate_passes p w"
  shows "\<exists>w'. invoke p c w = Inr (Text (spec_sequence rq @ text @ RESET_STYLE), w')"
proof (cases rq)
  case (Named col t)
  obtain w1 where "named_gate p col w = Inr w1"
    using named_gate_passes [OF assms(2)] by blast
  with Named assms(1) show ?thesis
    by (cases t)
       (auto simp: string_result_def named_pos_string_def named_string_def on_named_string_def
          color_text_spec color_background_spec)
next
  case (Styled st)
  obtain w1 where "gate p w = Inr w1"
    using gate_passes_gate [OF assms(2)] by blast
  with Styled assms(1) show ?thesis
    by (auto simp: string_result_def style_string_def style_literal_spec)
next
  case (Custom t r g b)
  obtain w1 where "gate p w = Inr w1"
    using gate_passes_gate [OF assms(2)] by blast
  with Custom assms(1) show ?thesis
    by (cases t)
       (auto simp: string_result_def color_pos_string_def color_string_def colorText_def
          colorBackground_def getColor_text_spec getColor_background_spec)
qed

lemma wraps_result:
  assumes "c \<in> set (wraps rq text)" and "invoke p c w = Inr (r, w')"
  shows "r = Text (spec_sequence rq @ text @ RESET_STYLE)"
proof (cases rq)
  case (Named col t)
  with assms show ?thesis
    by (cases t)
       (auto simp: string_result_def named_pos_string_def named_string_def on_named_string_def
             color_text_spec color_background_spec split: sum.splits)
next
  case (Styled st)
  with assms show ?thesis
    by (auto simp: string_result_def style_string_def style_literal_spec split: sum.splits)
next
  case (Custom t r g b)
  with assms show ?thesis
    by (cases t)
       (auto simp: string_result_def color_pos_string_def color_string_def colorText_def
          colorBackground_def getColor_text_spec getColor_background_spec split: sum.splits)
qed

lemma applies_returns:
  assumes "c \<in> set (applies rq os)" and "gate_passes p w"
  shows "\<exists>w'. invoke p c w = Inr (Stream os, w')
              \<and> streams w' = (streams w)(os := insert_formatted (spec_sequence rq) (streams w os))"
proof (cases rq)
  case (Named col t)
  obtain w1 where "named_gate p col w = Inr w1" "streams w1 = streams w"
    using named_gate_passes [OF assms(2)] by blast
  with Named assms(1) show ?thesis
    by (cases t)
       (auto simp: stream_result_def named_pos_stream_def named_stream_def on_named_stream_def
          color_text_spec color_background_spec)
next
  case (Styled st)
  obtain w1 where "gate p w = Inr w1" "streams w1 = streams w"
    using gate_passes_gate [OF assms(2)] by blast
  with Styled assms(1) show ?thesis
    by (auto simp: stream_result_def style_stream_def style_literal_spec)
next
  case (Custom t r g b)
  obtain w1 where "gate p w = Inr w1" "streams w1 = streams w"
    using gate_passes_gate [OF assms(2)] by blast
  with Custom assms(1) show ?thesis
    using getColor_spec [of Foreground r g b] getColor_spec [of Background r g b]
    by (cases t)
       (auto simp: stream_result_def color_pos_stream_def on_color_stream_def
          colorBackground0_def getColor_background_spec)
qed

lemma applies_result:
  assumes "c \<in> set (applies rq os)" and "invoke p c w = Inr (r, w')"
  shows "r = Stream os
         \<and> streams w' = (streams w)(os := insert_formatted (spec_sequence rq) (streams w os))"
proof (cases rq)
  case (Named col t)
  with assms show ?thesis
    by (cases t)
       (auto simp: stream_result_def named_pos_stream_def named_stream_def on_named_stream_def
             color_text_spec color_background_spec
             dest!: named_gate_Inr split: sum.splits)
next
  case (Styled st)
  with assms show ?thesis
    by (auto simp: stream_result_def style_stream_def style_literal_spec dest!: gate_Inr
          split: sum.splits)
next
  case (Custom t r g b)
  with assms show ?thesis
    using getColor_spec [of Foreground r g b] getColor_spec [of Background r g b]
    by (cases t)
       (auto simp: stream_result_def color_pos_stream_def on_color_stream_def
          colorBackground0_def getColor_background_spec dest!: gate_Inr split: sum.splits)
qed

lemma wraps_on_other:
  "map (\<lambda>c. map_sum id fst (invoke Other c w)) (wraps rq text)
     = replicate (length (wraps rq text)) (Inr (Text (spec_sequence rq @ text @ RESET_STYLE)))"
proof -
  have g: "gate_passes Other w"
    by (simp add: gate_passes_def)
  have "map_sum id fst (invoke Other c w) = Inr (Text (spec_sequence rq @ text @ RESET_STYLE))"
    if "c \<in> set (wraps rq text)" for c
    using wraps_returns [OF that g] by auto
  then have "map (\<lambda>c. map_sum id fst (invoke Other c w)) (wraps rq text)
     = map (\<lambda>c. Inr (Text (spec_sequence rq @ text @ RESET_STYLE))) (wraps rq text)"
    by (intro map_cong) simp_all
  then show ?thesis by (simp add: map_replicate_const)
qed

lemma color_stream_result:
  assumes "invoke p (Color_stream r g b os) w = Inr (r', w')"
  shows "r' = Stream os
         \<and> streams w' = (streams w)
               (os := insert_formatted (spec_sequence (Custom Background r g b)) (streams w os))"
  using assms
  by (auto simp: stream_result_def color_stream_def colorBackground0_def
        getColor_background_spec dest!: gate_Inr split: sum.splits)

lemma color_stream_returns:
  assumes "gate_passes p w"
  shows "\<exists>w'. invoke p (Color_stream r g b os) w = Inr (Stream os, w')"
  using gate_passes_gate [OF assms]
  by (auto simp: stream_result_def color_stream_def)

section \<open>Stripping what the library emits\<close>

lemma sgr_rest_params:
  "list_all is_param ps \<Longrightarrow> sgr_rest (ps @ CHR ''m'' # xs) = Some xs"
  by (induction ps) (auto simp: is_param_def)

lemma strip_sgr_sequence:
  "list_all is_param ps \<Longrightarrow> strip_sgr (ESC # CHR ''['' # ps @ CHR ''m'' # xs) = strip_sgr xs"
  by (simp add: sgr_rest_params)

lemma sgr_rest_append_ESC:
  "sgr_rest (cs @ ESC # ys) = map_option (\<lambda>r. r @ ESC # ys) (sgr_rest cs)"
  by (induction cs) (auto simp: ESC_def is_param_def)

lemma strip_sgr_reset: "strip_sgr (xs @ RESET_STYLE) = strip_sgr xs"
proof (induction xs rule: strip_sgr.induct)
  case 1
  show ?case by (simp add: RESET_STYLE_def is_param_def)
next
  case (2 c)
  show ?case by (simp add: RESET_STYLE_def ESC_def is_param_def)
next
  case (3 c d cs)
  show ?case
  proof (cases "c = ESC \<and> d = CHR ''[''")
    case True
    note esc = this
    show ?thesis
    proof (cases "sgr_rest cs")
      case None
      with esc 3 show ?thesis
        by (simp add: RESET_STYLE_def sgr_rest_append_ESC)
    next
      case (Some rest)
      with esc 3 show ?thesis
        by (simp add: RESET_STYLE_def sgr_rest_append_ESC)
    qed
  next
    case False
    with 3 show ?thesis by auto
  qed
qed

lemma to_string_params: "list_all is_param (to_string n)"
  using to_string_digits [of n] by (auto simp: list_all_iff is_param_def)

lemma strip_getColor: "strip_sgr (getColor position r g b @ xs) = strip_sgr xs"
proof -
  have "list_all is_param
          (f @ to_string (unat r) @ '';'' @ to_string (unat g) @ '';'' @ to_string (unat b))"
    if "f = ''38;2;'' \<or> f = ''48;2;''" for f
    using that by (auto simp: to_string_params is_param_def)
  from this [of "''38;2;''"] this [of "''48;2;''"]
    strip_sgr_sequence [of "''38;2;'' @ to_string (unat r) @ '';'' @ to_string (unat g)
                              @ '';'' @ to_string (unat b)" xs]
    strip_sgr_sequence [of "''48;2;'' @ to_string (unat r) @ '';'' @ to_string (unat g)
                              @ '';'' @ to_string (unat b)" xs]
  show ?thesis
    by (simp add: getColor_def)
qed

lemma strip_color_text: "strip_sgr (at color_text (key c) @ xs) = strip_sgr xs"
proof (cases c)
  case (Plain h)
  then show ?thesis
    by (cases h) (simp_all add: at_def color_text_def is_param_def)
next
  case (Bright h)
  then show ?thesis
    by (cases h) (simp_all add: at_def color_text_def is_param_def)
qed

lemma strip_color_background: "strip_sgr (at color_background (key c) @ xs) = strip_sgr xs"
proof (cases c)
  case (Plain h)
  then show ?thesis
    by (cases h) (simp_all add: at_def color_background_def is_param_def)
next
  case (Bright h)
  then show ?thesis
    by (cases h) (simp_all add: at_def color_background_def is_param_def)
qed

lemma strip_style: "strip_sgr (style_literal st @ xs) = strip_sgr xs"
  by (cases st) (simp_all add: is_param_def)

lemma sgr_rest_shorter: "sgr_rest cs = Some rest \<Longrightarrow> length rest < length cs"
  by (induction cs) (auto split: if_splits)

lemma strip_sgr_plain: "\<not> has_sgr s \<Longrightarrow> strip_sgr s = s"
  by (induction s rule: strip_sgr.induct) (auto split: option.splits)

lemma strip_sgr_length: "length (strip_sgr s) \<le> length s"
proof (induction s rule: strip_sgr.induct)
  case (3 c d cs)
  show ?case
  proof (cases "c = ESC \<and> d = CHR ''[''")
    case True
    show ?thesis
    proof (cases "sgr_rest cs")
      case None
      with True 3 show ?thesis by simp
    next
      case (Some rest)
      with True 3 sgr_rest_shorter [OF Some] show ?thesis by simp
    qed
  next
    case False
    with 3 show ?thesis by auto
  qed
qed simp_all

lemma strip_sgr_shorter: "has_sgr s \<Longrightarrow> length (strip_sgr s) < length s"
proof (induction s rule: strip_sgr.induct)
  case (3 c d cs)
  show ?case
  proof (cases "c = ESC \<and> d = CHR ''[''")
    case True
    show ?thesis
    proof (cases "sgr_rest cs")
      case None
      with True 3 show ?thesis by simp
    next
      case (Some rest)
      with True sgr_rest_shorter [OF Some] strip_sgr_length [of rest] show ?thesis by simp
    qed
  next
    case False
    with 3 show ?thesis by auto
  qed
qed simp_all

lemma strip_sgr_fixed: "strip_sgr s = s \<longleftrightarrow> \<not> has_sgr s"
  using strip_sgr_plain [of s] strip_sgr_shorter [of s] by auto

lemma wrapped_result:
  assumes "wrapped c = Some text" and "invoke p c w = Inr (r, w')"
  shows "\<exists>out. r = Text out \<and> strip_sgr out = strip_sgr text"
  using assms
  by (cases c)
     (auto simp: string_result_def color_pos_string_def color_string_def on_color_string_def
        named_pos_string_def named_string_def on_named_string_def style_string_def
        colorText_def colorBackground_def
        strip_getColor strip_color_text strip_color_background strip_style strip_sgr_reset
        split: sum.splits)

lemma wrapped_returns:
  assumes "wrapped c = Some text" and "valid_position c" and "gate_passes p w"
  shows "\<exists>r w'. invoke p c w = Inr (r, w')"
proof -
  obtain w1 where g: "gate p w = Inr w1"
    using gate_passes_gate [OF assms(3)] by blast
  have n: "\<exists>w1. named_gate p col w = Inr w1" for col
    using named_gate_passes [OF assms(3), of col] by blast
  show ?thesis
  proof (cases c)
    case (Named_pos_string col position text')
    with n [of col] assms(2) show ?thesis
      by (auto simp: string_result_def named_pos_string_def)
  next
    case (Named_string col text')
    with n [of col] show ?thesis
      by (auto simp: string_result_def named_string_def)
  next
    case (On_named_string col text')
    with n [of col] show ?thesis
      by (auto simp: string_result_def on_named_string_def)
  qed (use assms(1,2) g in \<open>auto simp: string_result_def color_pos_string_def
        color_string_def on_color_string_def style_string_def\<close>)
qed

section \<open>The flag along a program\<close>

lemma invoke_keeps_flag:
  assumes "invoke p c w = Inr (r, w')" and "handleVTSequences w"
  shows "handleVTSequences w'"
  using assms
  by (cases c)
     (auto simp: stream_result_def string_result_def
        color_pos_stream_def color_pos_string_def color_string_def color_stream_def
        on_color_string_def on_color_stream_def named_pos_stream_def named_pos_string_def
        named_string_def named_stream_def on_named_string_def on_named_stream_def
        style_stream_def style_string_def reset_stream_def reset_string_def
        dest!: gate_flag named_gate_flag split: sum.splits)

lemma run_flag_set:
  "handleVTSequences w \<Longrightarrow>
   map handleVTSequences (run p cs w) = replicate (length (run p cs w)) True"
proof (induction cs arbitrary: w)
  case Nil
  show ?case by simp
next
  case (Cons c cs)
  show ?case
  proof (cases "invoke p c w")
    case (Inl e)
    then show ?thesis by simp
  next
    case (Inr rw)
    obtain r w' where rw: "rw = (r, w')" by (cases rw)
    from Inr rw Cons.prems have "handleVTSequences w'"
      using invoke_keeps_flag by blast
    with Cons.IH [of w'] Inr rw show ?thesis by simp
  qed
qed

lemma run_flag_history:
  "\<exists>n m. map handleVTSequences (w # run p cs w) = replicate n False @ replicate m True"
proof (induction cs arbitrary: w)
  case Nil
  show ?case
  proof (cases "handleVTSequences w")
    case True
    then have "map handleVTSequences (w # run p [] w) = replicate 0 False @ replicate 1 True"
      by simp
    then show ?thesis by blast
  next
    case False
    then have "map handleVTSequences (w # run p [] w) = replicate 1 False @ replicate 0 True"
      by simp
    then show ?thesis by blast
  qed
next
  case (Cons c cs)
  show ?case
  proof (cases "handleVTSequences w")
    case True
    then have "map handleVTSequences (w # run p (c # cs) w)
      = replicate 0 False @ replicate (Suc (length (run p (c # cs) w))) True"
      using run_flag_set [of w p "c # cs"] by simp
    then show ?thesis by blast
  next
    case False
    show ?thesis
    proof (cases "invoke p c w")
      case (Inl e)
      with False have "map handleVTSequences (w # run p (c # cs) w)
        = replicate 1 False @ replicate 0 True"
        by simp
      then show ?thesis by blast
    next
      case (Inr rw)
      obtain r w' where rw: "rw = (r, w')" by (cases rw)
      from Cons.IH [of w'] obtain n m where
        "map handleVTSequences (w' # run p cs w') = replicate n False @ replicate m True"
        by blast
      with False Inr rw have "map handleVTSequences (w # run p (c # cs) w)
        = replicate (Suc n) False @ replicate m True"
        by simp
      then show ?thesis by blast
    qed
  qed
qed

section \<open>The claims\<close>

text \<open>
  C1. Claimed: the first call of any entry point triggers the capability enabler
  exactly once. A process that starts with \<^verbatim>\<open>red(text)\<close> and goes on with
  \<^verbatim>\<open>bright_grey<TEXT>(os)\<close> has, after both calls, the flag still false and the
  enabler never called, although a sequence has been returned and another written: the
  functions of the fifteen colours other than grey lack the gate line. The functions
  of grey have it: \<^verbatim>\<open>grey(text)\<close> as the first call sets the flag and calls the
  enabler once.
\<close>

theorem ungated_first_call:
  "run p [Named_string (Plain Red) text, Named_pos_stream (Bright Grey) TEXT os] initial_world
     = [initial_world,
        initial_world\<lparr>streams := (\<lambda>_. fresh_stream)
          (os := \<lparr>content = CHR 0x1B # ''[1;30m'', good = True, width = 0, fill = CHR '' '',
                   adjust_left = False\<rparr>)\<rparr>]
   \<and> invoke p (Named_string (Plain Red) text) initial_world
     = Inr (Text (CHR 0x1B # ''[31m'' @ text @ CHR 0x1B # ''[0m''), initial_world)
   \<and> handleVTSequences initial_world = False
   \<and> enabler_calls initial_world = 0
   \<and> run Other [Named_string (Plain Grey) text] initial_world
     = [initial_world\<lparr>handleVTSequences := True, enabler_calls := 1\<rparr>]"
  by (simp add: string_result_def stream_result_def named_string_def named_pos_stream_def
      named_gate_def gate_def stream_insert_def insert_formatted_def padding_def fresh_stream_def
      at_def color_text_def ESC_def RESET_STYLE_def initial_world_def)

text \<open>
  C2. Claimed: every string form returns the sequence its request resolves to, then
  the text, then the reset sequence. \<^verbatim>\<open>on_color<r, g, b>(text)\<close>, the string form of a
  custom background colour, returns the foreground sequence ESC[38;2;R;G;Bm in front of
  the text, for every r, g, b and text, where the sequence of the request is
  ESC[48;2;R;G;Bm; \<^verbatim>\<open>color<BACKGROUND, r, g, b>(text)\<close>, the other string form of the
  same request, returns the background sequence. Evaluated at 255, 0, 128 and "x" in a
  new process. Every other string form does as claimed: where the enabler cannot fail,
  each form listed by \<open>wraps\<close> returns the sequence of its request, the text and
  ESC[0m, from every world.
\<close>

theorem on_color_string_foreground:
  "on_color_string Other 255 0 128 ''x'' initial_world
     = Inr (CHR 0x1B # ''[38;2;255;0;128mx'' @ CHR 0x1B # ''[0m'',
            initial_world\<lparr>handleVTSequences := True, enabler_calls := 1\<rparr>)
   \<and> spec_sequence (Custom Background 255 0 128) = CHR 0x1B # ''[48;2;255;0;128m''
   \<and> color_pos_string Other BACKGROUND 255 0 128 ''x'' initial_world
     = Inr (CHR 0x1B # ''[48;2;255;0;128mx'' @ CHR 0x1B # ''[0m'',
            initial_world\<lparr>handleVTSequences := True, enabler_calls := 1\<rparr>)
   \<and> on_color_string Other r g b text initial_world
     = Inr (spec_sequence (Custom Foreground r g b) @ text @ CHR 0x1B # ''[0m'',
            initial_world\<lparr>handleVTSequences := True, enabler_calls := 1\<rparr>)
   \<and> spec_sequence (Custom Foreground r g b) @ text @ CHR 0x1B # ''[0m''
     \<noteq> spec_sequence (Custom Background r g b) @ text @ CHR 0x1B # ''[0m''
   \<and> map (\<lambda>c. map_sum id fst (invoke Other c w)) (wraps rq text)
     = replicate (length (wraps rq text))
         (Inr (Text (spec_sequence rq @ text @ CHR 0x1B # ''[0m'')))"
proof -
  have a: "on_color_string Other 255 0 128 ''x'' initial_world
     = Inr (CHR 0x1B # ''[38;2;255;0;128mx'' @ CHR 0x1B # ''[0m'',
            initial_world\<lparr>handleVTSequences := True, enabler_calls := 1\<rparr>)"
    by (simp add: on_color_string_def gate_def initial_world_def colorText_def getColor_def
        to_string.simps digit_char_def RESET_STYLE_def ESC_def)
  have b: "spec_sequence (Custom Background 255 0 128) = CHR 0x1B # ''[48;2;255;0;128m''"
    by (simp add: spec_decimal_def spec_digit_def)
  have c: "color_pos_string Other BACKGROUND 255 0 128 ''x'' initial_world
     = Inr (CHR 0x1B # ''[48;2;255;0;128mx'' @ CHR 0x1B # ''[0m'',
            initial_world\<lparr>handleVTSequences := True, enabler_calls := 1\<rparr>)"
    by (simp add: color_pos_string_def gate_def initial_world_def colorBackground_def
        getColor_def BACKGROUND_def TEXT_def to_string.simps digit_char_def RESET_STYLE_def
        ESC_def checkPosition_def)
  have d: "on_color_string Other r g b text initial_world
     = Inr (spec_sequence (Custom Foreground r g b) @ text @ CHR 0x1B # ''[0m'',
            initial_world\<lparr>handleVTSequences := True, enabler_calls := 1\<rparr>)"
    by (simp add: on_color_string_def gate_def initial_world_def colorText_def
        getColor_text_spec reset_literal)
  have e: "spec_sequence (Custom Foreground r g b) @ text @ CHR 0x1B # ''[0m''
     \<noteq> spec_sequence (Custom Background r g b) @ text @ CHR 0x1B # ''[0m''"
    by simp
  have f: "map (\<lambda>c. map_sum id fst (invoke Other c w)) (wraps rq text)
     = replicate (length (wraps rq text))
         (Inr (Text (spec_sequence rq @ text @ CHR 0x1B # ''[0m'')))"
    using wraps_on_other [of w rq "text"] by (simp add: reset_literal)
  from a b c d e f show ?thesis by blast
qed

text \<open>
  C3. For each of the eight hues, at place k in the order grey, red, green, yellow,
  blue, magenta, cyan, white, the text table holds ESC[3km under the hue's name and
  ESC[1;3km under its bright name, and the background table holds ESC[4km and
  ESC[1;4km; the two tables have these sixteen keys and no other.
\<close>

theorem named_colour_tables:
  "at color_text (key (Plain h)) = CHR 0x1B # ''[3'' @ to_string (hue_index h) @ ''m''
   \<and> at color_text (key (Bright h)) = CHR 0x1B # ''[1;3'' @ to_string (hue_index h) @ ''m''
   \<and> at color_background (key (Plain h)) = CHR 0x1B # ''[4'' @ to_string (hue_index h) @ ''m''
   \<and> at color_background (key (Bright h))
       = CHR 0x1B # ''[1;4'' @ to_string (hue_index h) @ ''m''
   \<and> map hue_index [Grey, Red, Green, Yellow, Blue, Magenta, Cyan, White]
       = [0, 1, 2, 3, 4, 5, 6, 7]
   \<and> map to_string [0, 1, 2, 3, 4, 5, 6, 7]
       = [''0'', ''1'', ''2'', ''3'', ''4'', ''5'', ''6'', ''7'']
   \<and> map fst color_text
       = map key (map Plain [Grey, Red, Green, Yellow, Blue, Magenta, Cyan, White]
                  @ map Bright [Grey, Red, Green, Yellow, Blue, Magenta, Cyan, White])
   \<and> map fst color_background = map fst color_text"
  by (cases h)
     (simp_all add: at_def color_text_def color_background_def ESC_def to_string.simps
        digit_char_def)

text \<open>
  C4. For all components r, g, b the generator gives ESC[38;2;R;G;Bm at position TEXT
  and ESC[48;2;R;G;Bm at position BACKGROUND, where R, G, B are the decimal forms of the
  components, without leading zeros; for 255, 0, 128 on the text that is
  ESC[38;2;255;0;128m, for 0, 0, 0 on the background ESC[48;2;0;0;0m.
\<close>

theorem getColor_sequences:
  "getColor TEXT r g b
     = CHR 0x1B # ''[38;2;'' @ to_string (unat r) @ '';'' @ to_string (unat g) @ '';''
         @ to_string (unat b) @ ''m''
   \<and> getColor BACKGROUND r g b
     = CHR 0x1B # ''[48;2;'' @ to_string (unat r) @ '';'' @ to_string (unat g) @ '';''
         @ to_string (unat b) @ ''m''
   \<and> is_decimal (to_string (unat r)) (unat r)
   \<and> is_decimal (to_string (unat g)) (unat g)
   \<and> is_decimal (to_string (unat b)) (unat b)
   \<and> getColor TEXT 255 0 128 = CHR 0x1B # ''[38;2;255;0;128m''
   \<and> getColor BACKGROUND 0 0 0 = CHR 0x1B # ''[48;2;0;0;0m''"
proof -
  have fg: "getColor TEXT r g b
     = CHR 0x1B # ''[38;2;'' @ to_string (unat r) @ '';'' @ to_string (unat g) @ '';''
         @ to_string (unat b) @ ''m''"
    by (simp add: getColor_def TEXT_def ESC_def)
  have bg: "getColor BACKGROUND r g b
     = CHR 0x1B # ''[48;2;'' @ to_string (unat r) @ '';'' @ to_string (unat g) @ '';''
         @ to_string (unat b) @ ''m''"
    by (simp add: getColor_def BACKGROUND_def ESC_def)
  have ex1: "getColor TEXT 255 0 128 = CHR 0x1B # ''[38;2;255;0;128m''"
    by (simp add: getColor_def TEXT_def ESC_def to_string.simps digit_char_def)
  have ex2: "getColor BACKGROUND 0 0 0 = CHR 0x1B # ''[48;2;0;0;0m''"
    by (simp add: getColor_def BACKGROUND_def ESC_def to_string.simps digit_char_def)
  from fg bg ex1 ex2 to_string_decimal show ?thesis by simp
qed

theorem getColor_sequences_witness:
  "getColor TEXT 7 42 200 = CHR 0x1B # ''[38;2;7;42;200m''
   \<and> is_decimal ''7'' 7 \<and> is_decimal ''42'' 42 \<and> is_decimal ''200'' 200"
  using getColor_sequences [of 7 42 200]
  by (simp add: to_string.simps digit_char_def)

text \<open>
  C5. Claimed: without a position argument, \<^verbatim>\<open>color<r, g, b>\<close> gives the foreground
  sequence (38;2) on a string and on a stream, and \<^verbatim>\<open>on_color<r, g, b>\<close> the
  background sequence (48;2) on both. Two of the four bodies call the other helper:
  \<^verbatim>\<open>color<255, 0, 128>(os)\<close> writes the background sequence and
  \<^verbatim>\<open>on_color<255, 0, 128>("x")\<close> returns the foreground one, while
  \<^verbatim>\<open>color<255, 0, 128>("x")\<close> and \<^verbatim>\<open>on_color<255, 0, 128>(os)\<close> do as claimed.
\<close>

theorem custom_shorthand_families:
  "color_stream Other 255 0 128 os initial_world
     = Inr (os, \<lparr>handleVTSequences = True, enabler_calls = 1,
                 streams = (\<lambda>_. fresh_stream)
                   (os := \<lparr>content = CHR 0x1B # ''[48;2;255;0;128m'', good = True, width = 0,
                            fill = CHR '' '', adjust_left = False\<rparr>)\<rparr>)
   \<and> on_color_string Other 255 0 128 ''x'' initial_world
     = Inr (CHR 0x1B # ''[38;2;255;0;128mx'' @ CHR 0x1B # ''[0m'',
            \<lparr>handleVTSequences = True, enabler_calls = 1, streams = (\<lambda>_. fresh_stream)\<rparr>)
   \<and> color_string Other 255 0 128 ''x'' initial_world
     = Inr (CHR 0x1B # ''[38;2;255;0;128mx'' @ CHR 0x1B # ''[0m'',
            \<lparr>handleVTSequences = True, enabler_calls = 1, streams = (\<lambda>_. fresh_stream)\<rparr>)
   \<and> on_color_stream Other 255 0 128 os initial_world
     = Inr (os, \<lparr>handleVTSequences = True, enabler_calls = 1,
                 streams = (\<lambda>_. fresh_stream)
                   (os := \<lparr>content = CHR 0x1B # ''[48;2;255;0;128m'', good = True, width = 0,
                            fill = CHR '' '', adjust_left = False\<rparr>)\<rparr>)"
  by (simp add: color_stream_def on_color_string_def color_string_def on_color_stream_def
      gate_def initial_world_def stream_insert_def insert_formatted_def padding_def
      fresh_stream_def colorBackground0_def colorText_def getColor_def
      to_string.simps digit_char_def RESET_STYLE_def ESC_def)

text \<open>
  C6. The flag starts false, and along every program of calls, from the start of the
  process or from any other world, the values of the flag are a run of false followed
  by a run of true: it turns true at most once and never turns back.
\<close>

theorem flag_monotone:
  "handleVTSequences initial_world = False
   \<and> (\<exists>n m. map handleVTSequences (initial_world # run p cs initial_world)
               = replicate n False @ replicate m True)
   \<and> (\<exists>n m. map handleVTSequences (w # run p cs w) = replicate n False @ replicate m True)"
  using run_flag_history [of initial_world p cs] run_flag_history [of w p cs]
  by (simp add: initial_world_def)

text \<open>
  C7, as claimed: stripping every ESC [ ... m sequence from what a string form returns
  gives back the text, also for a text with ESC bytes in it. It fails for a text that
  is itself such a sequence: \<^verbatim>\<open>red("\033[1m")\<close> returns ESC[31m ESC[1m ESC[0m, which
  strips to the empty string.
\<close>

theorem strip_wrap_counterexample:
  "invoke Other (Named_string (Plain Red) [CHR 0x1B, CHR ''['', CHR ''1'', CHR ''m''])
     initial_world
     = Inr (Text [CHR 0x1B, CHR ''['', CHR ''3'', CHR ''1'', CHR ''m'',
                  CHR 0x1B, CHR ''['', CHR ''1'', CHR ''m'',
                  CHR 0x1B, CHR ''['', CHR ''0'', CHR ''m''], initial_world)
   \<and> strip_sgr [CHR 0x1B, CHR ''['', CHR ''3'', CHR ''1'', CHR ''m'',
                 CHR 0x1B, CHR ''['', CHR ''1'', CHR ''m'',
                 CHR 0x1B, CHR ''['', CHR ''0'', CHR ''m'']
       \<noteq> [CHR 0x1B, CHR ''['', CHR ''1'', CHR ''m'']"
  by (simp add: string_result_def named_string_def named_gate_def at_def color_text_def
      RESET_STYLE_def ESC_def is_param_def)

text \<open>
  C7, amended: for every string form of a colour or of a style, whichever function it
  is, stripping what it returns gives exactly what stripping the text itself gives. So
  the text comes back whole when it holds no complete sequence of its own (the empty
  text, and a text whose ESC bytes open no complete sequence, among them), and only
  then. The form returns whenever the gate lets it through and its position, if it
  takes one, is TEXT or BACKGROUND.
\<close>

theorem strip_wrap_roundtrip:
  assumes "wrapped c = Some text"
  shows "(gate_passes p w \<and> valid_position c \<longrightarrow>
            (\<exists>out w'. invoke p c w = Inr (Text out, w')))
         \<and> (\<forall>r w'. invoke p c w = Inr (r, w') \<longrightarrow> (\<exists>out. r = Text out))
         \<and> (\<forall>out w'. invoke p c w = Inr (Text out, w') \<longrightarrow>
                strip_sgr out = strip_sgr text
                \<and> (\<not> has_sgr text \<longrightarrow> strip_sgr out = text)
                \<and> (has_sgr text \<longrightarrow> strip_sgr out \<noteq> text))"
proof -
  have shape: "\<exists>out. r = Text out \<and> strip_sgr out = strip_sgr text"
    if "invoke p c w = Inr (r, w')" for r w'
    using wrapped_result [OF assms that] .
  have ret: "\<exists>out w'. invoke p c w = Inr (Text out, w')"
    if "gate_passes p w" "valid_position c"
  proof -
    from wrapped_returns [OF assms that(2) that(1)]
    obtain r w' where i: "invoke p c w = Inr (r, w')" by blast
    with shape [OF i] show ?thesis by blast
  qed
  have fixed: "strip_sgr text = text \<longleftrightarrow> \<not> has_sgr text"
    by (rule strip_sgr_fixed)
  from shape ret fixed show ?thesis
    by (metis returned.inject(2))
qed

theorem strip_wrap_roundtrip_witness:
  "wrapped (On_color_string 1 2 3 [CHR ''a'', CHR 0x1B, CHR ''['', CHR ''1''])
     = Some [CHR ''a'', CHR 0x1B, CHR ''['', CHR ''1'']
   \<and> gate_passes Other initial_world
   \<and> valid_position (On_color_string 1 2 3 [CHR ''a'', CHR 0x1B, CHR ''['', CHR ''1''])
   \<and> \<not> has_sgr [CHR ''a'', CHR 0x1B, CHR ''['', CHR ''1'']
   \<and> (\<exists>out w'. invoke Other (On_color_string 1 2 3 [CHR ''a'', CHR 0x1B, CHR ''['', CHR ''1''])
                  initial_world = Inr (Text out, w')
        \<and> strip_sgr out = [CHR ''a'', CHR 0x1B, CHR ''['', CHR ''1''])"
proof -
  have h: "wrapped (On_color_string 1 2 3 [CHR ''a'', CHR 0x1B, CHR ''['', CHR ''1''])
     = Some [CHR ''a'', CHR 0x1B, CHR ''['', CHR ''1'']"
    by simp
  have g: "gate_passes Other initial_world"
    by (simp add: gate_passes_def)
  have v: "valid_position (On_color_string 1 2 3 [CHR ''a'', CHR 0x1B, CHR ''['', CHR ''1''])"
    by simp
  have n: "\<not> has_sgr [CHR ''a'', CHR 0x1B, CHR ''['', CHR ''1'']"
    by (simp add: ESC_def is_param_def)
  from strip_wrap_roundtrip [OF h, of Other initial_world] g v n h
  show ?thesis by blast
qed

text \<open>
  C8, as claimed: on every stream a stream form appends exactly the sequence of its
  request and nothing else. It fails on a stream with a pending field width:
  \<^verbatim>\<open>red(os)\<close> on a stream that holds "ab", with width 8 and fill character *,
  leaves it holding "ab***" and then ESC[31m. It fails on a stream that is not in good
  state: there \<^verbatim>\<open>red(os)\<close> leaves the "ab" it held and adds nothing.
\<close>

theorem apply_on_any_stream_counterexample:
  "invoke Other (Named_stream (Plain Red) 0)
     (initial_world\<lparr>streams := (\<lambda>_. fresh_stream)
        (0 := \<lparr>content = ''ab'', good = True, width = 8, fill = CHR ''*'',
               adjust_left = False\<rparr>)\<rparr>)
     = Inr (Stream 0,
            initial_world\<lparr>streams := (\<lambda>_. fresh_stream)
              (0 := \<lparr>content = ''ab***'' @ CHR 0x1B # ''[31m'', good = True, width = 0,
                     fill = CHR ''*'', adjust_left = False\<rparr>)\<rparr>)
   \<and> ''ab***'' @ CHR 0x1B # ''[31m'' \<noteq> ''ab'' @ CHR 0x1B # ''[31m''
   \<and> invoke Other (Named_stream (Plain Red) 0)
     (initial_world\<lparr>streams := (\<lambda>_. fresh_stream)
        (0 := \<lparr>content = ''ab'', good = False, width = 0, fill = CHR '' '',
               adjust_left = False\<rparr>)\<rparr>)
     = Inr (Stream 0,
            initial_world\<lparr>streams := (\<lambda>_. fresh_stream)
              (0 := \<lparr>content = ''ab'', good = False, width = 0, fill = CHR '' '',
                     adjust_left = False\<rparr>)\<rparr>)
   \<and> ''ab'' \<noteq> ''ab'' @ CHR 0x1B # ''[31m''"
  by (simp add: stream_result_def named_stream_def named_gate_def stream_insert_def
      insert_formatted_def padding_def at_def color_text_def ESC_def initial_world_def
      eval_nat_numeral)

text \<open>
  C8, amended: every stream form of a named colour or of a style, the custom-colour
  form that names its position and \<^verbatim>\<open>on_color<r, g, b>(os)\<close> return the stream they
  were given and change no other stream; on the given stream they do one formatted
  insertion of the sequence of the request, and nothing else. On a stream in good
  state whose pending width is not larger than the sequence, that appends exactly the
  sequence to what the stream held (no text, no reset, no fill character) and sets the
  width to 0; with a larger width the fill characters come with it; on a stream that is
  not in good state nothing is inserted. The form returns whenever the gate lets it
  through. \<^verbatim>\<open>color<r, g, b>(os)\<close> too returns its stream, changes no other and does one
  formatted insertion, of a custom-colour sequence for r, g, b; of which family is not
  said here.
\<close>

theorem apply_appends_sequence_only:
  assumes "c \<in> set (applies rq os)"
  shows "(gate_passes p w \<longrightarrow>
            (\<exists>w'. invoke p c w = Inr (Stream os, w')
                  \<and> streams w' = (streams w)
                        (os := insert_formatted (spec_sequence rq) (streams w os))))
         \<and> (\<forall>r w'. invoke p c w = Inr (r, w') \<longrightarrow>
                r = Stream os
                \<and> streams w' = (streams w)
                      (os := insert_formatted (spec_sequence rq) (streams w os)))
         \<and> (good (streams w os) \<and> width (streams w os) \<le> int (length (spec_sequence rq)) \<longrightarrow>
                insert_formatted (spec_sequence rq) (streams w os)
                  = (streams w os)\<lparr>content := content (streams w os) @ spec_sequence rq,
                                   width := 0\<rparr>)
         \<and> (good (streams w os) \<longrightarrow>
                insert_formatted (spec_sequence rq) (streams w os)
                  = (streams w os)\<lparr>content := content (streams w os)
                        @ (if adjust_left (streams w os)
                           then spec_sequence rq
                                  @ replicate (nat (width (streams w os)
                                                    - int (length (spec_sequence rq))))
                                      (fill (streams w os))
                           else replicate (nat (width (streams w os)
                                                - int (length (spec_sequence rq))))
                                  (fill (streams w os))
                                  @ spec_sequence rq),
                      width := 0\<rparr>)
         \<and> (\<not> good (streams w os) \<longrightarrow>
                insert_formatted (spec_sequence rq) (streams w os) = streams w os)
         \<and> (gate_passes p w \<longrightarrow>
                (\<exists>w'. invoke p (Color_stream r g b os) w = Inr (Stream os, w')))
         \<and> (\<forall>r' w'. invoke p (Color_stream r g b os) w = Inr (r', w') \<longrightarrow>
                r' = Stream os
                \<and> (\<exists>t. streams w' = (streams w)
                       (os := insert_formatted (spec_sequence (Custom t r g b)) (streams w os))))"
proof -
  have plain: "good (streams w os) \<and> width (streams w os) \<le> int (length (spec_sequence rq)) \<longrightarrow>
                insert_formatted (spec_sequence rq) (streams w os)
                  = (streams w os)\<lparr>content := content (streams w os) @ spec_sequence rq,
                                   width := 0\<rparr>"
    by (simp add: insert_plain)
  have padded: "good (streams w os) \<longrightarrow>
                insert_formatted (spec_sequence rq) (streams w os)
                  = (streams w os)\<lparr>content := content (streams w os)
                        @ (if adjust_left (streams w os)
                           then spec_sequence rq
                                  @ replicate (nat (width (streams w os)
                                                    - int (length (spec_sequence rq))))
                                      (fill (streams w os))
                           else replicate (nat (width (streams w os)
                                                - int (length (spec_sequence rq))))
                                  (fill (streams w os))
                                  @ spec_sequence rq),
                      width := 0\<rparr>"
    by (simp add: insert_formatted_def padding_def)
  have failed: "\<not> good (streams w os) \<longrightarrow>
                insert_formatted (spec_sequence rq) (streams w os) = streams w os"
    by (simp add: insert_failed)
  have short: "\<forall>r' w'. invoke p (Color_stream r g b os) w = Inr (r', w') \<longrightarrow>
                r' = Stream os
                \<and> (\<exists>t. streams w' = (streams w)
                       (os := insert_formatted (spec_sequence (Custom t r g b)) (streams w os)))"
    using color_stream_result [of p r g b os w] by blast
  have short_ret: "gate_passes p w \<longrightarrow>
                (\<exists>w'. invoke p (Color_stream r g b os) w = Inr (Stream os, w'))"
    using color_stream_returns [of p w r g b os] by blast
  from applies_returns [OF assms, of p w] applies_result [OF assms, of p w] plain padded failed
    short short_ret
  show ?thesis by blast
qed

theorem apply_appends_sequence_only_witness:
  "On_color_stream 0 0 0 5 \<in> set (applies (Custom Background 0 0 0) 5)
   \<and> gate_passes Other (stream_insert 5 ''abc'' initial_world)
   \<and> good (streams (stream_insert 5 ''abc'' initial_world) 5)
   \<and> width (streams (stream_insert 5 ''abc'' initial_world) 5)
       \<le> int (length (spec_sequence (Custom Background 0 0 0)))
   \<and> (\<exists>w'. invoke Other (On_color_stream 0 0 0 5) (stream_insert 5 ''abc'' initial_world)
               = Inr (Stream 5, w')
            \<and> streams w' = (\<lambda>_. fresh_stream)
                 (5 := \<lparr>content = ''abc'' @ CHR 0x1B # ''[48;2;0;0;0m'', good = True, width = 0,
                        fill = CHR '' '', adjust_left = False\<rparr>))"
proof -
  have h: "On_color_stream 0 0 0 5 \<in> set (applies (Custom Background 0 0 0) 5)"
    by simp
  have g: "gate_passes Other (stream_insert 5 ''abc'' initial_world)"
    by (simp add: gate_passes_def)
  have st: "streams (stream_insert 5 ''abc'' initial_world) 5
              = \<lparr>content = ''abc'', good = True, width = 0, fill = CHR '' '',
                 adjust_left = False\<rparr>"
    by (simp add: initial_world_def fresh_stream_def insert_formatted_def padding_def)
  have gd: "good (streams (stream_insert 5 ''abc'' initial_world) 5)"
    by (simp only: st) simp
  have wd: "width (streams (stream_insert 5 ''abc'' initial_world) 5)
       \<le> int (length (spec_sequence (Custom Background 0 0 0)))"
    by (simp only: st) simp
  have v: "spec_sequence (Custom Background 0 0 0) = CHR 0x1B # ''[48;2;0;0;0m''"
    by (simp add: spec_decimal_def spec_digit_def)
  from apply_appends_sequence_only [OF h, of Other "stream_insert 5 ''abc'' initial_world"] g gd wd
  obtain w' where
    ret: "invoke Other (On_color_stream 0 0 0 5) (stream_insert 5 ''abc'' initial_world)
            = Inr (Stream 5, w')" and
    app: "streams w' = (streams (stream_insert 5 ''abc'' initial_world))
            (5 := (streams (stream_insert 5 ''abc'' initial_world) 5)
                    \<lparr>content := content (streams (stream_insert 5 ''abc'' initial_world) 5)
                                  @ spec_sequence (Custom Background 0 0 0),
                     width := 0\<rparr>)"
    by metis
  from app have "streams w' = (\<lambda>_. fresh_stream)
                 (5 := \<lparr>content = ''abc'' @ CHR 0x1B # ''[48;2;0;0;0m'', good = True, width = 0,
                        fill = CHR '' '', adjust_left = False\<rparr>)"
    unfolding st v by (simp add: initial_world_def)
  with ret h g gd wd show ?thesis by blast
qed

text \<open>
  C9. The style table holds ESC[1m for bold, ESC[3m for italic, ESC[4m for underline
  and ESC[7m for reverse, the style functions carry the same four literals, and the
  reset sequence is ESC[0m; whenever the gate lets them through, the string forms of
  the styles return them, their stream forms insert them, and \<^verbatim>\<open>reset(os)\<close> inserts
  the reset sequence: on a stream in good state with no pending width larger than the
  literal, that appends the literal to what the stream held.
\<close>

theorem style_and_reset_literals:
  "map (at styles) [''bold'', ''italic'', ''underline'', ''reverse'']
     = [CHR 0x1B # ''[1m'', CHR 0x1B # ''[3m'', CHR 0x1B # ''[4m'', CHR 0x1B # ''[7m'']
   \<and> map style_literal [Bold, Italic, Underline, Reverse]
     = [CHR 0x1B # ''[1m'', CHR 0x1B # ''[3m'', CHR 0x1B # ''[4m'', CHR 0x1B # ''[7m'']
   \<and> RESET_STYLE = CHR 0x1B # ''[0m''
   \<and> (gate_passes p w \<longrightarrow>
        (\<exists>w'. style_string p st text w = Inr (style_literal st @ text @ RESET_STYLE, w'))
        \<and> (\<exists>w'. style_stream p st os w = Inr (os, w')
                 \<and> streams w' = (streams w)
                       (os := insert_formatted (style_literal st) (streams w os)))
        \<and> (\<exists>w'. reset_stream p os w = Inr (os, w')
                 \<and> streams w' = (streams w)
                       (os := insert_formatted RESET_STYLE (streams w os))))
   \<and> (good (streams w os) \<and> width (streams w os) \<le> 4 \<longrightarrow>
        insert_formatted (style_literal st) (streams w os)
          = (streams w os)\<lparr>content := content (streams w os) @ style_literal st, width := 0\<rparr>
        \<and> insert_formatted RESET_STYLE (streams w os)
          = (streams w os)\<lparr>content := content (streams w os) @ RESET_STYLE, width := 0\<rparr>)"
proof -
  have tab: "map (at styles) [''bold'', ''italic'', ''underline'', ''reverse'']
     = [CHR 0x1B # ''[1m'', CHR 0x1B # ''[3m'', CHR 0x1B # ''[4m'', CHR 0x1B # ''[7m'']"
    by (simp add: at_def styles_def ESC_def)
  have lit: "map style_literal [Bold, Italic, Underline, Reverse]
     = [CHR 0x1B # ''[1m'', CHR 0x1B # ''[3m'', CHR 0x1B # ''[4m'', CHR 0x1B # ''[7m'']"
    by (simp add: ESC_def)
  have reset: "RESET_STYLE = CHR 0x1B # ''[0m''"
    by (simp add: RESET_STYLE_def ESC_def)
  have ops: "(\<exists>w'. style_string p st text w = Inr (style_literal st @ text @ RESET_STYLE, w'))
        \<and> (\<exists>w'. style_stream p st os w = Inr (os, w')
                 \<and> streams w' = (streams w)
                       (os := insert_formatted (style_literal st) (streams w os)))
        \<and> (\<exists>w'. reset_stream p os w = Inr (os, w')
                 \<and> streams w' = (streams w)
                       (os := insert_formatted RESET_STYLE (streams w os)))"
    if "gate_passes p w"
    using gate_passes_gate [OF that]
    by (auto simp: style_string_def style_stream_def reset_stream_def)
  have len: "length (style_literal st) = 4" "length RESET_STYLE = 4"
    by (cases st) (simp_all add: RESET_STYLE_def)
  have plain: "insert_formatted (style_literal st) (streams w os)
          = (streams w os)\<lparr>content := content (streams w os) @ style_literal st, width := 0\<rparr>
        \<and> insert_formatted RESET_STYLE (streams w os)
          = (streams w os)\<lparr>content := content (streams w os) @ RESET_STYLE, width := 0\<rparr>"
    if "good (streams w os) \<and> width (streams w os) \<le> 4"
    using that by (simp add: insert_plain len)
  from tab lit reset ops plain show ?thesis by blast
qed

theorem style_and_reset_literals_witness:
  "gate_passes Other initial_world
   \<and> good (streams initial_world 2) \<and> width (streams initial_world 2) \<le> 4
   \<and> style_string Other Italic ''hello'' initial_world
       = Inr (CHR 0x1B # ''[3mhello'' @ CHR 0x1B # ''[0m'',
              initial_world\<lparr>handleVTSequences := True, enabler_calls := 1\<rparr>)
   \<and> style_stream Other Reverse 2 initial_world
       = Inr (2, \<lparr>handleVTSequences = True, enabler_calls = 1,
                  streams = (\<lambda>_. fresh_stream)
                    (2 := \<lparr>content = CHR 0x1B # ''[7m'', good = True, width = 0,
                           fill = CHR '' '', adjust_left = False\<rparr>)\<rparr>)"
proof -
  have g: "gate_passes Other initial_world"
    by (simp add: gate_passes_def)
  have s: "good (streams initial_world 2) \<and> width (streams initial_world 2) \<le> 4"
    by (simp add: initial_world_def fresh_stream_def)
  from style_and_reset_literals [of Other initial_world Italic "''hello''" 2] g s
  show ?thesis
    by (simp add: style_string_def style_stream_def gate_def stream_insert_def
        insert_formatted_def padding_def fresh_stream_def initial_world_def
        RESET_STYLE_def ESC_def)
qed

text \<open>
  C10. \<^verbatim>\<open>reset(text)\<close> returns, whenever it returns, the text followed by ESC[0m and
  nothing before the text; it returns whenever the gate lets it through.
\<close>

theorem reset_string_appends_only:
  "(gate_passes p w \<longrightarrow> (\<exists>w'. reset_string p text w = Inr (text @ CHR 0x1B # ''[0m'', w')))
   \<and> (\<forall>s w'. reset_string p text w = Inr (s, w') \<longrightarrow> s = text @ CHR 0x1B # ''[0m'')"
proof -
  have lit: "RESET_STYLE = CHR 0x1B # ''[0m''"
    by (simp add: RESET_STYLE_def ESC_def)
  show ?thesis
    using gate_passes_gate [of p w]
    by (auto simp: reset_string_def lit split: sum.splits)
qed

theorem reset_string_appends_only_witness:
  "gate_passes Other initial_world
   \<and> reset_string Other ''hello'' initial_world
       = Inr (''hello'' @ CHR 0x1B # ''[0m'',
              initial_world\<lparr>handleVTSequences := True, enabler_calls := 1\<rparr>)"
proof -
  have g: "gate_passes Other initial_world"
    by (simp add: gate_passes_def)
  have r: "reset_string Other ''hello'' initial_world
       = Inr (''hello'' @ RESET_STYLE,
              initial_world\<lparr>handleVTSequences := True, enabler_calls := 1\<rparr>)"
    by (simp add: reset_string_def gate_def initial_world_def)
  from reset_string_appends_only [of Other initial_world "''hello''"] g r
  show ?thesis by auto
qed


end
